theory Spec2Isabelle
  imports Main "HOL-Library.Word"
begin

unbundle bit_operations_syntax

section \<open>D-Med patient records (appv1.py): the store\<close>

text \<open>
  The program keeps its data in one SQLite file with the tables \<open>users\<close>, \<open>patients\<close>,
  \<open>visits\<close> and \<open>documents\<close> that \<open>init_db\<close> declares. A table is the list of its rows in
  insertion order. Python's \<open>str\<close> is \<open>string\<close>, a character standing for its code point
  (U+0000 to U+00FF); Python's \<open>None\<close> and SQL's \<open>NULL\<close> are \<open>None\<close>, so a nullable column
  is an \<open>option\<close> and a column declared \<open>NOT NULL\<close>, which the program always binds to a
  \<open>str\<close>, is a plain \<open>string\<close>. Row ids are Python integers. The columns \<open>created_at\<close> and
  \<open>uploaded_at\<close> take the clock's value and are read by no function of the file; they are
  left out of the rows.
\<close>

record user_row =
  u_id :: int
  username :: string
  password_hash :: string

record patient_row =
  p_id :: int
  name :: string
  dob :: string
  gender :: "string option"
  diagnosis :: "string option"
  p_notes :: "string option"
  status :: "string option"
  handler_user :: "string option"

record visit_row =
  v_id :: int
  patient_id :: int
  visit_date :: string
  reason :: "string option"
  outcome :: "string option"
  progress_status :: "string option"
  tags :: "string option"

record document_row =
  doc_id :: int
  visit_id :: int
  file_name :: string
  file_path :: string

text \<open>
  Every table is declared \<open>INTEGER PRIMARY KEY AUTOINCREMENT\<close>: SQLite keeps, per table, the
  largest row id it has handed out (its \<open>sqlite_sequence\<close> entry) and gives a new row the
  next one. The \<open>*_seq\<close> fields are these entries.
\<close>

record database =
  users :: "user_row list"
  users_seq :: int
  patients :: "patient_row list"
  patients_seq :: int
  visits :: "visit_row list"
  visits_seq :: int
  documents :: "document_row list"

text \<open>
  A connection is the database it is open on together with the connection's own settings.
  The one that matters here is \<open>PRAGMA foreign_keys\<close>: SQLite checks a
  \<open>FOREIGN KEY\<close> clause only on a connection that has switched it on.
\<close>

record conn = database +
  foreign_keys :: bool

text \<open>The file before the program has ever run: no rows, no row id handed out.\<close>

definition new_file :: database where
  "new_file = \<lparr>users = [], users_seq = 0, patients = [], patients_seq = 0,
                visits = [], visits_seq = 0, documents = []\<rparr>"

text \<open>
  \<open>get_db_connection\<close> is \<open>sqlite3.connect(...)\<close> and nothing more; no \<open>PRAGMA\<close> is issued
  anywhere in the file, so the connection has SQLite's default, foreign keys off.
\<close>

definition get_db_connection :: "database \<Rightarrow> conn" where
  "get_db_connection file =
     \<lparr>users = users file, users_seq = users_seq file,
      patients = patients file, patients_seq = patients_seq file,
      visits = visits file, visits_seq = visits_seq file,
      documents = documents file, foreign_keys = False\<rparr>"

text \<open>The exceptions the functions below can raise.\<close>

datatype sqlite_constraint = UNIQUE_failed | FOREIGN_KEY_failed

datatype error = IntegrityError sqlite_constraint | JSONDecodeError

section \<open>Authentication\<close>

subsection \<open>\<open>hashlib.sha256(password.encode()).hexdigest()\<close>\<close>

type_synonym u8 = "8 word"
type_synonym u32 = "32 word"

text \<open>\<open>str.encode()\<close> is UTF-8: one byte below U+0080, two bytes up to U+00FF.\<close>

definition utf8_char :: "char \<Rightarrow> u8 list" where
  "utf8_char c =
     (let n = (of_char c :: nat)
      in if n < 128 then [of_nat n]
         else [of_nat (192 + n div 64), of_nat (128 + n mod 64)])"

definition encode :: "string \<Rightarrow> u8 list" where
  "encode s = concat (map utf8_char s)"

definition rotr :: "nat \<Rightarrow> u32 \<Rightarrow> u32" where
  "rotr n x = drop_bit n x OR push_bit (32 - n) x"

definition Ch :: "u32 \<Rightarrow> u32 \<Rightarrow> u32 \<Rightarrow> u32" where
  "Ch x y z = (x AND y) XOR (NOT x AND z)"

definition Maj :: "u32 \<Rightarrow> u32 \<Rightarrow> u32 \<Rightarrow> u32" where
  "Maj x y z = (x AND y) XOR (x AND z) XOR (y AND z)"

definition big_sigma0 :: "u32 \<Rightarrow> u32" where
  "big_sigma0 x = rotr 2 x XOR rotr 13 x XOR rotr 22 x"

definition big_sigma1 :: "u32 \<Rightarrow> u32" where
  "big_sigma1 x = rotr 6 x XOR rotr 11 x XOR rotr 25 x"

definition small_sigma0 :: "u32 \<Rightarrow> u32" where
  "small_sigma0 x = rotr 7 x XOR rotr 18 x XOR drop_bit 3 x"

definition small_sigma1 :: "u32 \<Rightarrow> u32" where
  "small_sigma1 x = rotr 17 x XOR rotr 19 x XOR drop_bit 10 x"

text \<open>
  The round constants, eight to a row: the first 32 bits of the fractional parts of the
  cube roots of the first 64 primes.
\<close>

definition sha256_k :: "u32 list" where
  "sha256_k = concat
    [[0x428a2f98, 0x71374491, 0xb5c0fbcf, 0xe9b5dba5, 0x3956c25b, 0x59f111f1, 0x923f82a4, 0xab1c5ed5],
     [0xd807aa98, 0x12835b01, 0x243185be, 0x550c7dc3, 0x72be5d74, 0x80deb1fe, 0x9bdc06a7, 0xc19bf174],
     [0xe49b69c1, 0xefbe4786, 0x0fc19dc6, 0x240ca1cc, 0x2de92c6f, 0x4a7484aa, 0x5cb0a9dc, 0x76f988da],
     [0x983e5152, 0xa831c66d, 0xb00327c8, 0xbf597fc7, 0xc6e00bf3, 0xd5a79147, 0x06ca6351, 0x14292967],
     [0x27b70a85, 0x2e1b2138, 0x4d2c6dfc, 0x53380d13, 0x650a7354, 0x766a0abb, 0x81c2c92e, 0x92722c85],
     [0xa2bfe8a1, 0xa81a664b, 0xc24b8b70, 0xc76c51a3, 0xd192e819, 0xd6990624, 0xf40e3585, 0x106aa070],
     [0x19a4c116, 0x1e376c08, 0x2748774c, 0x34b0bcb5, 0x391c0cb3, 0x4ed8aa4a, 0x5b9cca4f, 0x682e6ff3],
     [0x748f82ee, 0x78a5636f, 0x84c87814, 0x8cc70208, 0x90befffa, 0xa4506ceb, 0xbef9a3f7, 0xc67178f2]]"

type_synonym sha_state = "u32 \<times> u32 \<times> u32 \<times> u32 \<times> u32 \<times> u32 \<times> u32 \<times> u32"

definition sha256_init :: sha_state where
  "sha256_init =
    (0x6a09e667, 0xbb67ae85, 0x3c6ef372, 0xa54ff53a, 0x510e527f, 0x9b05688c, 0x1f83d9ab, 0x5be0cd19)"

definition be_bytes :: "64 word \<Rightarrow> u8 list" where
  "be_bytes n = map (\<lambda>i. ucast (drop_bit (56 - 8 * i) n)) [0..<8]"

text \<open>Padding: the byte 0x80, zero bytes up to 56 modulo 64, the bit length on 8 bytes.\<close>

definition sha256_pad :: "u8 list \<Rightarrow> u8 list" where
  "sha256_pad m =
     (let l = length m; z = (119 - l mod 64) mod 64
      in m @ [0x80] @ replicate z 0 @ be_bytes (of_nat (8 * l)))"

definition be_word :: "u8 list \<Rightarrow> u32" where
  "be_word bs = fold (\<lambda>b w. push_bit 8 w OR ucast b) bs 0"

primrec chunks :: "nat \<Rightarrow> nat \<Rightarrow> 'a list \<Rightarrow> 'a list list" where
  "chunks 0 k xs = []"
| "chunks (Suc n) k xs = take k xs # chunks n k (drop k xs)"

definition blocks :: "u8 list \<Rightarrow> u32 list list" where
  "blocks bs = map (\<lambda>blk. map be_word (chunks 16 4 blk)) (chunks (length bs div 64) 64 bs)"

primrec schedule :: "nat \<Rightarrow> u32 list \<Rightarrow> u32 list" where
  "schedule 0 w = w"
| "schedule (Suc n) w =
     (let t = length w
      in schedule n (w @ [small_sigma1 (w ! (t - 2)) + w ! (t - 7)
                          + small_sigma0 (w ! (t - 15)) + w ! (t - 16)]))"

definition round :: "u32 \<times> u32 \<Rightarrow> sha_state \<Rightarrow> sha_state" where
  "round kw s =
     (case (kw, s) of ((k, w), (a, b, c, d, e, f, g, h)) \<Rightarrow>
       (let t1 = h + big_sigma1 e + Ch e f g + k + w;
            t2 = big_sigma0 a + Maj a b c
        in (t1 + t2, a, b, c, d + t1, e, f, g)))"

definition add_state :: "sha_state \<Rightarrow> sha_state \<Rightarrow> sha_state" where
  "add_state s t =
     (case (s, t) of ((a, b, c, d, e, f, g, h), (a', b', c', d', e', f', g', h')) \<Rightarrow>
        (a + a', b + b', c + c', d + d', e + e', f + f', g + g', h + h'))"

definition compress :: "u32 list \<Rightarrow> sha_state \<Rightarrow> sha_state" where
  "compress block h = add_state h (fold round (zip sha256_k (schedule 48 block)) h)"

definition sha256 :: "u8 list \<Rightarrow> sha_state" where
  "sha256 m = fold compress (blocks (sha256_pad m)) sha256_init"

definition hex_digit :: "nat \<Rightarrow> char" where
  "hex_digit n = (if n < 10 then char_of (48 + n) else char_of (87 + n))"

definition hex_word :: "u32 \<Rightarrow> string" where
  "hex_word w = map (\<lambda>i. hex_digit (unat (drop_bit (28 - 4 * i) w AND 0xF))) [0..<8]"

definition hexdigest :: "sha_state \<Rightarrow> string" where
  "hexdigest s =
     (case s of (a, b, c, d, e, f, g, h) \<Rightarrow> concat (map hex_word [a, b, c, d, e, f, g, h]))"

subsection \<open>\<open>hash_password\<close>, \<open>verify_password\<close>, \<open>login_user\<close>\<close>

definition hash_password :: "string \<Rightarrow> string" where
  "hash_password password = hexdigest (sha256 (encode password))"

definition verify_password :: "string \<Rightarrow> string \<Rightarrow> bool" where
  "verify_password stored_hash provided_password =
     (stored_hash = hash_password provided_password)"

text \<open>
  \<open>fetchone()\<close> gives the first row with the username, or \<open>None\<close>. The function returns
  \<open>user and verify_password(...)\<close>: Python's \<open>and\<close> gives back \<open>user\<close> itself when it is
  \<open>None\<close>, and the comparison's \<open>bool\<close> when there is a row (a row of one column is truthy).
  So the result is \<open>None\<close> or a \<open>bool\<close>; \<open>truthy\<close> is what an \<open>if\<close> makes of it.
\<close>

definition login_user :: "conn \<Rightarrow> string \<Rightarrow> string \<Rightarrow> bool option" where
  "login_user c uname password =
     (case find (\<lambda>r. username r = uname) (users c) of
        None \<Rightarrow> None
      | Some user \<Rightarrow> Some (verify_password (password_hash user) password))"

definition truthy :: "bool option \<Rightarrow> bool" where
  "truthy r = (r = Some True)"

section \<open>Initialisation\<close>

text \<open>
  \<open>INSERT INTO users (username, password_hash)\<close>: the column \<open>username\<close> is \<open>UNIQUE\<close>, so
  the statement fails with \<open>sqlite3.IntegrityError\<close> when the name is taken, and the failed
  statement changes nothing.
\<close>

definition insert_user :: "conn \<Rightarrow> string \<Rightarrow> string \<Rightarrow> error + conn" where
  "insert_user c uname pw_hash =
     (if uname \<in> username ` set (users c) then Inl (IntegrityError UNIQUE_failed)
      else Inr (c\<lparr>users := users c @ [\<lparr>u_id = users_seq c + 1, username = uname,
                                          password_hash = pw_hash\<rparr>],
                  users_seq := users_seq c + 1\<rparr>))"

text \<open>
  The four \<open>CREATE TABLE IF NOT EXISTS\<close> statements give a new file its empty tables and
  leave the tables of an initialised file as they are; on the state above, where a missing
  table and an empty one are the same, they change nothing. What remains is the seed:
  look for the row of \<open>admin\<close>, and insert it when there is none.
\<close>

definition init_db :: "conn \<Rightarrow> error + conn" where
  "init_db c =
     (if find (\<lambda>r. username r = ''admin'') (users c) = None
      then insert_user c ''admin'' (hash_password ''admin123'')
      else Inr c)"

text \<open>\<open>main\<close> runs \<open>init_db\<close> at every start of the program: \<open>n\<close> starts in a row.\<close>

primrec init_db_times :: "nat \<Rightarrow> conn \<Rightarrow> error + conn" where
  "init_db_times 0 c = Inr c"
| "init_db_times (Suc n) c =
     (case init_db c of Inl e \<Rightarrow> Inl e | Inr c' \<Rightarrow> init_db_times n c')"

section \<open>Dates and number formatting\<close>

text \<open>
  The forms hand over \<open>datetime.date\<close> values. \<open>strftime('%Y-%m-%d')\<close> prints the year on
  four digits and month and day on two, each filled with zeros from the left. (Below
  the year 1000 the C library decides whether the year is filled; the forms give no
  date before 1920.)
\<close>

record date =
  d_year :: nat
  d_month :: nat
  d_day :: nat

definition digit_char :: "nat \<Rightarrow> char" where
  "digit_char n = char_of (48 + n)"

function str_nat :: "nat \<Rightarrow> string" where
  "str_nat n = (if n < 10 then [digit_char n] else str_nat (n div 10) @ [digit_char (n mod 10)])"
  by pat_completeness auto
termination
  by (relation "measure id") auto

declare str_nat.simps [simp del]

definition zfill :: "nat \<Rightarrow> string \<Rightarrow> string" where
  "zfill width s = replicate (width - length s) (CHR ''0'') @ s"

definition strftime :: "date \<Rightarrow> string" where
  "strftime d =
     zfill 4 (str_nat (d_year d)) @ ''-'' @ zfill 2 (str_nat (d_month d)) @ ''-''
       @ zfill 2 (str_nat (d_day d))"

text \<open>
  An f-string prints an integer \<open>{year}\<close> as \<open>str\<close> does, and \<open>{month:02d}\<close> on at least
  two characters, the sign counted, zeros between sign and digits.
\<close>

definition str_int :: "int \<Rightarrow> string" where
  "str_int i = (if i < 0 then ''-'' @ str_nat (nat (- i)) else str_nat (nat i))"

definition format_02d :: "int \<Rightarrow> string" where
  "format_02d i =
     (if i < 0 then ''-'' @ zfill 1 (str_nat (nat (- i))) else zfill 2 (str_nat (nat i)))"

section \<open>JSON text of a tag list\<close>

definition DQ :: char where
  "DQ = CHR 0x22"

definition BS :: char where
  "BS = CHR 0x5C"

subsection \<open>\<open>json.dumps\<close> on a list of strings\<close>

text \<open>
  With its default \<open>ensure_ascii=True\<close>, \<open>json.dumps\<close> writes a string between double
  quotes, the quote and the backslash behind a backslash, backspace, form feed, newline,
  carriage return and tab as \<open>\b \f \n \r \t\<close>, every other character outside
  \<open>' '\<close> .. \<open>'~'\<close> as \<open>\u\<close> and four lower-case hex digits, and the rest as they are.
  A list is written in brackets, its items separated by a comma and a space.
\<close>

definition json_escape :: "char \<Rightarrow> string" where
  "json_escape c =
     (if c = DQ then [BS, DQ]
      else if c = BS then [BS, BS]
      else if c = CHR 0x08 then [BS, CHR ''b'']
      else if c = CHR 0x0C then [BS, CHR ''f'']
      else if c = CHR 0x0A then [BS, CHR ''n'']
      else if c = CHR 0x0D then [BS, CHR ''r'']
      else if c = CHR 0x09 then [BS, CHR ''t'']
      else if (of_char c :: nat) < 32 \<or> 126 < (of_char c :: nat)
        then [BS, CHR ''u'', CHR ''0'', CHR ''0'',
              hex_digit (of_char c div 16), hex_digit (of_char c mod 16)]
      else [c])"

definition encode_basestring_ascii :: "string \<Rightarrow> string" where
  "encode_basestring_ascii s = DQ # concat (map json_escape s) @ [DQ]"

fun join :: "string \<Rightarrow> string list \<Rightarrow> string" where
  "join sep [] = []"
| "join sep [x] = x"
| "join sep (x # y # ys) = x @ sep @ join sep (y # ys)"

definition json_dumps :: "string list \<Rightarrow> string" where
  "json_dumps tgs = ''['' @ join '', '' (map encode_basestring_ascii tgs) @ '']''"

subsection \<open>\<open>json.loads\<close> on the text of a list of strings\<close>

text \<open>
  The decoder, on the part of JSON that \<open>add_visit\<close> writes: an array whose items are
  strings, with the white space and all the string escapes JSON allows. The result is
  \<open>None\<close> where \<open>json.loads\<close> raises \<open>JSONDecodeError\<close>, and also where the text is other
  JSON (numbers, objects, nested arrays, or an escape for a character beyond U+00FF),
  which the program never stores.
\<close>

definition is_ws :: "char \<Rightarrow> bool" where
  "is_ws c = (c = CHR '' '' \<or> c = CHR 0x09 \<or> c = CHR 0x0A \<or> c = CHR 0x0D)"

definition skip_ws :: "string \<Rightarrow> string" where
  "skip_ws s = dropWhile is_ws s"

definition hex_value :: "char \<Rightarrow> nat option" where
  "hex_value c =
     (let n = (of_char c :: nat)
      in if 48 \<le> n \<and> n \<le> 57 then Some (n - 48)
         else if 97 \<le> n \<and> n \<le> 102 then Some (n - 87)
         else if 65 \<le> n \<and> n \<le> 70 then Some (n - 55)
         else None)"

definition decode_uXXXX :: "char \<Rightarrow> char \<Rightarrow> char \<Rightarrow> char \<Rightarrow> nat option" where
  "decode_uXXXX h1 h2 h3 h4 =
     (case (hex_value h1, hex_value h2, hex_value h3, hex_value h4) of
        (Some a, Some b, Some c, Some d) \<Rightarrow> Some (((a * 16 + b) * 16 + c) * 16 + d)
      | _ \<Rightarrow> None)"

definition unescape :: "char \<Rightarrow> char option" where
  "unescape e =
     (if e = DQ then Some DQ
      else if e = BS then Some BS
      else if e = CHR ''/'' then Some (CHR ''/'')
      else if e = CHR ''b'' then Some (CHR 0x08)
      else if e = CHR ''f'' then Some (CHR 0x0C)
      else if e = CHR ''n'' then Some (CHR 0x0A)
      else if e = CHR ''r'' then Some (CHR 0x0D)
      else if e = CHR ''t'' then Some (CHR 0x09)
      else None)"

definition cons_result :: "char \<Rightarrow> (string \<times> string) option \<Rightarrow> (string \<times> string) option" where
  "cons_result ch r = (case r of None \<Rightarrow> None | Some (s, rest) \<Rightarrow> Some (ch # s, rest))"

text \<open>
  \<open>scanstring\<close> reads a string from behind its opening quote and returns it with the text
  that follows the closing quote. A control character inside a string is an error.
\<close>

fun scanstring :: "string \<Rightarrow> (string \<times> string) option" where
  "scanstring [] = None"
| "scanstring (c # cs) =
     (if c = DQ then Some ([], cs)
      else if c = BS then
        (case cs of
           [] \<Rightarrow> None
         | e # es \<Rightarrow>
             if e = CHR ''u'' then
               (case es of
                  h1 # h2 # h3 # h4 # rest \<Rightarrow>
                    (case decode_uXXXX h1 h2 h3 h4 of
                       None \<Rightarrow> None
                     | Some n \<Rightarrow> if n < 256 then cons_result (char_of n) (scanstring rest)
                                 else None)
                | _ \<Rightarrow> None)
             else
               (case unescape e of
                  None \<Rightarrow> None
                | Some ch \<Rightarrow> cons_result ch (scanstring es)))
      else if (of_char c :: nat) < 32 then None
      else cons_result c (scanstring cs))"

lemma scanstring_shorter: "scanstring s = Some (v, r) \<Longrightarrow> length r < length s"
proof (induction s arbitrary: v r rule: scanstring.induct)
  case 1
  then show ?case by simp
next
  case (2 c cs)
  show ?case
  proof (cases "c = DQ")
    case True
    with "2.prems" show ?thesis by simp
  next
    case notq: False
    show ?thesis
    proof (cases "c = BS")
      case False
      with notq "2.prems" obtain v' where "scanstring cs = Some (v', r)"
        by (auto simp: cons_result_def split: if_splits option.splits)
      with "2.IH"(3) [OF notq False] show ?thesis
        using "2.prems" notq False by (fastforce split: if_splits)
    next
      case True
      show ?thesis
      proof (cases cs)
        case Nil
        with notq True "2.prems" show ?thesis by simp
      next
        case (Cons e es)
        show ?thesis
        proof (cases "e = CHR ''u''")
          case False
          with notq True Cons "2.prems" obtain ch v' where
            "unescape e = Some ch" "scanstring es = Some (v', r)"
            by (auto simp: cons_result_def split: option.splits)
          with "2.IH"(2) [OF notq True Cons False] Cons show ?thesis
            by fastforce
        next
          case isu: True
          with notq True Cons "2.prems" obtain h1 h2 h3 h4 rest n v' where
            es: "es = h1 # h2 # h3 # h4 # rest" and
            d: "decode_uXXXX h1 h2 h3 h4 = Some n" "n < 256" and
            r: "scanstring rest = Some (v', r)"
            by (auto simp: cons_result_def split: option.splits list.splits if_splits)
          have "length r < length rest"
            by (rule "2.IH"(1) [OF notq True Cons isu es _ _ _ d r]) simp_all
          with Cons es show ?thesis
            by simp
        qed
      qed
    qed
  qed
qed

text \<open>
  The items of an array, from its first item on: a string, then \<open>]\<close> or a comma and the
  next item, white space allowed around each.
\<close>

function scan_items :: "string \<Rightarrow> (string list \<times> string) option" where
  "scan_items s =
     (case s of
        [] \<Rightarrow> None
      | c # cs \<Rightarrow>
          if c \<noteq> DQ then None
          else
            (case scanstring cs of
               None \<Rightarrow> None
             | Some (v, r) \<Rightarrow>
                 (case skip_ws r of
                    [] \<Rightarrow> None
                  | d # ds \<Rightarrow>
                      if d = CHR '']'' then Some ([v], ds)
                      else if d = CHR '','' then
                        (case scan_items (skip_ws ds) of
                           None \<Rightarrow> None
                         | Some (vs, rest) \<Rightarrow> Some (v # vs, rest))
                      else None)))"
  by pat_completeness auto

termination
proof (relation "measure length")
  show "wf (measure length)"
    by simp
next
  fix s :: string and c cs x v r rs d ds
  assume "s = c # cs" "scanstring cs = Some x" "(v, r) = x" "skip_ws r = d # ds"
  then have "length r < length cs" and "length (d # ds) \<le> length r"
    using scanstring_shorter [of cs v r] length_dropWhile_le [of is_ws r]
    by (simp_all add: skip_ws_def)
  moreover have "length (skip_ws ds) \<le> length ds"
    by (simp add: skip_ws_def length_dropWhile_le)
  ultimately show "(skip_ws ds, s) \<in> measure length"
    using \<open>s = c # cs\<close> by simp
qed

declare scan_items.simps [simp del]

text \<open>
  \<open>json.loads\<close>: white space, the array, white space, and nothing after it
  (\<open>Extra data\<close> otherwise).
\<close>

definition json_loads :: "string \<Rightarrow> string list option" where
  "json_loads s =
     (case skip_ws s of
        [] \<Rightarrow> None
      | c # cs \<Rightarrow>
          if c \<noteq> CHR ''['' then None
          else
            (case (case skip_ws cs of
                     [] \<Rightarrow> None
                   | d # ds \<Rightarrow> if d = CHR '']'' then Some ([], ds) else scan_items (d # ds)) of
               None \<Rightarrow> None
             | Some (vs, rest) \<Rightarrow> if skip_ws rest = [] then Some vs else None))"

section \<open>Patient registry and visit ledger\<close>

text \<open>
  \<open>INSERT INTO patients (name, dob, gender, diagnosis, notes, status, handler_user)\<close>.
  The table is declared \<open>UNIQUE(name, dob)\<close>: with the pair already stored the statement
  fails with \<open>sqlite3.IntegrityError\<close> and writes nothing, the sequence entry included.
  All seven columns are bound, so no column default applies.
\<close>

definition insert_patient ::
  "conn \<Rightarrow> string \<Rightarrow> string \<Rightarrow> string option \<Rightarrow> string option \<Rightarrow> string option
     \<Rightarrow> string option \<Rightarrow> string option \<Rightarrow> error + conn" where
  "insert_patient c nm dob_text gen diag nts st handler =
     (if \<exists>p \<in> set (patients c). name p = nm \<and> dob p = dob_text
      then Inl (IntegrityError UNIQUE_failed)
      else Inr (c\<lparr>patients := patients c @
                    [\<lparr>p_id = patients_seq c + 1, name = nm, dob = dob_text, gender = gen,
                      diagnosis = diag, p_notes = nts, status = st, handler_user = handler\<rparr>],
                  patients_seq := patients_seq c + 1\<rparr>))"

text \<open>
  \<open>add_patient\<close> returns \<open>True\<close> after the insert and the commit; the \<open>except\<close> clause
  turns an \<open>IntegrityError\<close> into \<open>False\<close> (and a warning on the page), any other
  exception goes on to the caller.
\<close>

definition add_patient ::
  "conn \<Rightarrow> string \<Rightarrow> date \<Rightarrow> string option \<Rightarrow> string option \<Rightarrow> string option
     \<Rightarrow> string option \<Rightarrow> string option \<Rightarrow> error + bool \<times> conn" where
  "add_patient c nm birth gen diag nts st handler =
     (case insert_patient c nm (strftime birth) gen diag nts st handler of
        Inr c' \<Rightarrow> Inr (True, c')
      | Inl (IntegrityError k) \<Rightarrow> Inr (False, c)
      | Inl e \<Rightarrow> Inl e)"

text \<open>
  \<open>INSERT INTO visits (patient_id, visit_date, reason, outcome, progress_status, tags)\<close>.
  The table declares \<open>FOREIGN KEY (patient_id) REFERENCES patients (id)\<close>; SQLite checks
  the clause on a connection with foreign keys on, and there an insert whose
  \<open>patient_id\<close> is no patient's id fails with \<open>sqlite3.IntegrityError\<close>.
\<close>

definition insert_visit ::
  "conn \<Rightarrow> int \<Rightarrow> string \<Rightarrow> string option \<Rightarrow> string option \<Rightarrow> string option
     \<Rightarrow> string option \<Rightarrow> error + conn" where
  "insert_visit c pid date_text rsn outc progress tags_text =
     (if foreign_keys c \<and> pid \<notin> p_id ` set (patients c)
      then Inl (IntegrityError FOREIGN_KEY_failed)
      else Inr (c\<lparr>visits := visits c @
                    [\<lparr>v_id = visits_seq c + 1, patient_id = pid, visit_date = date_text,
                      reason = rsn, outcome = outc, progress_status = progress,
                      tags = tags_text\<rparr>],
                  visits_seq := visits_seq c + 1\<rparr>))"

text \<open>\<open>add_visit\<close> has no \<open>try\<close>: it returns \<open>cursor.lastrowid\<close>, the new row's id.\<close>

definition add_visit ::
  "conn \<Rightarrow> int \<Rightarrow> date \<Rightarrow> string option \<Rightarrow> string option \<Rightarrow> string option
     \<Rightarrow> string list \<Rightarrow> error + int \<times> conn" where
  "add_visit c pid vdate rsn outc progress tgs =
     (let tags_json = json_dumps tgs
      in case insert_visit c pid (strftime vdate) rsn outc progress (Some tags_json) of
           Inl e \<Rightarrow> Inl e
         | Inr c' \<Rightarrow> Inr (visits_seq c', c'))"

text \<open>
  \<open>UPDATE patients SET status = ?, handler_user = ? WHERE id = ?\<close>. The two columns carry
  no constraint, so the statement has no way to fail: the function has no error result.
\<close>

definition update_patient_status ::
  "conn \<Rightarrow> int \<Rightarrow> string option \<Rightarrow> string option \<Rightarrow> conn" where
  "update_patient_status c pid new_status handler =
     c\<lparr>patients :=
         map (\<lambda>p. if p_id p = pid then p\<lparr>status := new_status, handler_user := handler\<rparr>
                   else p)
           (patients c)\<rparr>"

section \<open>Reports and statistics\<close>

text \<open>
  SQLite compares two \<open>TEXT\<close> values byte by byte, a proper prefix before the longer
  text; on UTF-8 that is the order of the code points. \<open>x BETWEEN a AND b\<close> is
  \<open>a <= x AND x <= b\<close>.
\<close>

fun text_le :: "string \<Rightarrow> string \<Rightarrow> bool" where
  "text_le [] ys = True"
| "text_le (x # xs) [] = False"
| "text_le (x # xs) (y # ys) =
     (if x = y then text_le xs ys else (of_char x :: nat) < of_char y)"

definition between :: "string \<Rightarrow> string \<Rightarrow> string \<Rightarrow> bool" where
  "between x a b = (text_le a x \<and> text_le x b)"

text \<open>A row of the monthly report: \<open>p.id, p.name, p.dob, p.gender, p.diagnosis\<close>.\<close>

type_synonym report_row = "int \<times> string \<times> string \<times> string option \<times> string option"

definition report_row_of :: "patient_row \<Rightarrow> report_row" where
  "report_row_of p = (p_id p, name p, dob p, gender p, diagnosis p)"

text \<open>
  The join of patients and visits on the patient's id, filtered on the visit's date, and
  \<open>DISTINCT\<close> on the selected columns. SQL fixes no order for the rows of the result;
  the list below has them in the order of the patients table.
\<close>

definition get_monthly_report :: "conn \<Rightarrow> int \<Rightarrow> int \<Rightarrow> report_row list" where
  "get_monthly_report c year month =
     (let start_date = str_int year @ ''-'' @ format_02d month @ ''-01'';
          end_date = str_int year @ ''-'' @ format_02d month @ ''-31''
      in remdups [report_row_of p. p \<leftarrow> patients c, v \<leftarrow> visits c,
                                   p_id p = patient_id v,
                                   between (visit_date v) start_date end_date])"

text \<open>\<open>SELECT tags FROM visits WHERE tags IS NOT NULL AND tags != '[]'\<close>.\<close>

definition select_tags :: "conn \<Rightarrow> string list" where
  "select_tags c =
     concat (map (\<lambda>v. case tags v of None \<Rightarrow> [] | Some t \<Rightarrow> if t \<noteq> ''[]'' then [t] else [])
               (visits c))"

text \<open>The loop over the selected column: decode each text and extend \<open>all_tags\<close>.\<close>

fun extend_all :: "string list \<Rightarrow> string list \<Rightarrow> error + string list" where
  "extend_all all_tags [] = Inr all_tags"
| "extend_all all_tags (tags_json # rest) =
     (case json_loads tags_json of
        None \<Rightarrow> Inl JSONDecodeError
      | Some tags_list \<Rightarrow> extend_all (all_tags @ tags_list) rest)"

text \<open>
  \<open>Counter(all_tags)\<close> is a dictionary from tag to count that keeps its keys in the
  order of their first occurrence; \<open>items()\<close> lists it in that order.
\<close>

fun counter_add :: "string \<Rightarrow> (string \<times> nat) list \<Rightarrow> (string \<times> nat) list" where
  "counter_add t [] = [(t, 1)]"
| "counter_add t ((k, n) # kvs) =
     (if k = t then (k, n + 1) # kvs else (k, n) # counter_add t kvs)"

definition Counter :: "string list \<Rightarrow> (string \<times> nat) list" where
  "Counter xs = fold counter_add xs []"

text \<open>
  \<open>sort_values('Jumlah', ascending=False)\<close> orders the rows by falling count. pandas does
  not fix the order of rows with equal counts; the insertion sort below keeps them in the
  order they had, which is one of the orders allowed.
\<close>

definition sort_values_desc :: "(string \<times> nat) list \<Rightarrow> (string \<times> nat) list" where
  "sort_values_desc rows = sort_key (\<lambda>row. - int (snd row)) rows"

text \<open>An empty selection gives the empty frame; both are the empty list of rows.\<close>

definition get_action_tags_stats :: "conn \<Rightarrow> error + (string \<times> nat) list" where
  "get_action_tags_stats c =
     (let df = select_tags c
      in if df = [] then Inr []
         else case extend_all [] df of
                Inl e \<Rightarrow> Inl e
              | Inr all_tags \<Rightarrow> Inr (sort_values_desc (Counter all_tags)))"

section \<open>An example store\<close>

text \<open>
  The store after the first start of the program, the registration of one patient and
  three visits of that patient carrying the tag lists \<open>["A", "B"]\<close>, \<open>["A"]\<close> and \<open>[]\<close>.
\<close>

definition example_conn :: conn where
  "example_conn =
     \<lparr>users = [\<lparr>u_id = 1, username = ''admin'', password_hash = hash_password ''admin123''\<rparr>],
      users_seq = 1,
      patients = [\<lparr>p_id = 1, name = ''Budi'', dob = ''1990-05-17'', gender = Some ''Laki-laki'',
                   diagnosis = Some ''flu'', p_notes = None, status = Some ''Hidup'',
                   handler_user = None\<rparr>],
      patients_seq = 1,
      visits = [\<lparr>v_id = 1, patient_id = 1, visit_date = ''2024-02-29'', reason = None,
                 outcome = None, progress_status = Some ''Membaik'',
                 tags = Some (json_dumps [''A'', ''B''])\<rparr>,
                \<lparr>v_id = 2, patient_id = 1, visit_date = ''2024-04-30'', reason = None,
                 outcome = None, progress_status = Some ''Membaik'',
                 tags = Some (json_dumps [''A''])\<rparr>,
                \<lparr>v_id = 3, patient_id = 1, visit_date = ''2024-05-02'', reason = None,
                 outcome = None, progress_status = Some ''Tetap'',
                 tags = Some (json_dumps [])\<rparr>],
      visits_seq = 3,
      documents = [],
      foreign_keys = False\<rparr>"

section \<open>The example store is a state of the program\<close>

text \<open>
  It is what the first start, \<open>add_patient\<close> and three calls of \<open>add_visit\<close> produce from
  a new file.
\<close>

lemma strftime_examples:
  "strftime \<lparr>d_year = 1990, d_month = 5, d_day = 17\<rparr> = ''1990-05-17''"
  "strftime \<lparr>d_year = 2024, d_month = 2, d_day = 29\<rparr> = ''2024-02-29''"
  "strftime \<lparr>d_year = 2024, d_month = 4, d_day = 30\<rparr> = ''2024-04-30''"
  "strftime \<lparr>d_year = 2024, d_month = 5, d_day = 2\<rparr> = ''2024-05-02''"
  by code_simp+

lemma example_conn_reachable:
  "\<exists>c0 c1 c2 c3.
      init_db (get_db_connection new_file) = Inr c0
    \<and> add_patient c0 ''Budi'' \<lparr>d_year = 1990, d_month = 5, d_day = 17\<rparr>
         (Some ''Laki-laki'') (Some ''flu'') None (Some ''Hidup'') None = Inr (True, c1)
    \<and> add_visit c1 1 \<lparr>d_year = 2024, d_month = 2, d_day = 29\<rparr>
         None None (Some ''Membaik'') [''A'', ''B''] = Inr (1, c2)
    \<and> add_visit c2 1 \<lparr>d_year = 2024, d_month = 4, d_day = 30\<rparr>
         None None (Some ''Membaik'') [''A''] = Inr (2, c3)
    \<and> add_visit c3 1 \<lparr>d_year = 2024, d_month = 5, d_day = 2\<rparr>
         None None (Some ''Tetap'') [] = Inr (3, example_conn)"
  by (simp add: init_db_def insert_user_def get_db_connection_def new_file_def
      add_patient_def insert_patient_def add_visit_def insert_visit_def
      strftime_examples example_conn_def)

section \<open>Properties of the credential store and of initialisation\<close>

lemma find_username_None_iff:
  "find (\<lambda>r. username r = u) us = None \<longleftrightarrow> u \<notin> username ` set us"
  by (auto simp: find_None_iff image_iff)

text \<open>
  C6. Right after the first initialisation of a new file, with no registration before it,
  \<open>login_user(conn, "admin", "admin123")\<close> succeeds: the users table holds the one seeded
  row of \<open>admin\<close> with the hash of the default password.
\<close>

theorem login_after_first_init:
  "\<exists>c. init_db (get_db_connection new_file) = Inr c
       \<and> users c = [\<lparr>u_id = 1, username = ''admin'',
                       password_hash = hash_password ''admin123''\<rparr>]
       \<and> login_user c ''admin'' ''admin123'' = Some True
       \<and> truthy (login_user c ''admin'' ''admin123'')"
  by (simp add: init_db_def insert_user_def get_db_connection_def new_file_def
      login_user_def verify_password_def truthy_def)

text \<open>
  C7. \<open>login_user\<close> fails for every username and password when the username is not in
  the users table or the stored hash differs from the hash of the password given. For an
  unknown username it raises nothing and returns \<open>None\<close>, which is false in a condition;
  on a wrong password it returns \<open>False\<close>.
\<close>

theorem login_user_fails:
  "(u \<notin> username ` set (users c) \<longrightarrow>
      login_user c u p = None \<and> \<not> truthy (login_user c u p)) \<and>
   (\<forall>row. find (\<lambda>r. username r = u) (users c) = Some row
            \<and> password_hash row \<noteq> hash_password p \<longrightarrow>
      login_user c u p = Some False \<and> \<not> truthy (login_user c u p))"
proof -
  have absent: "login_user c u p = None \<and> \<not> truthy (login_user c u p)"
    if "u \<notin> username ` set (users c)"
  proof -
    from that have "find (\<lambda>r. username r = u) (users c) = None"
      by (simp add: find_username_None_iff)
    then show ?thesis
      by (simp add: login_user_def truthy_def)
  qed
  have mismatch: "login_user c u p = Some False \<and> \<not> truthy (login_user c u p)"
    if "find (\<lambda>r. username r = u) (users c) = Some row"
      and "password_hash row \<noteq> hash_password p" for row
    using that by (simp add: login_user_def truthy_def verify_password_def)
  from absent mismatch show ?thesis
    by blast
qed

text \<open>
  Two digests, computed by the definitions above: they are the values \<open>hashlib\<close> gives.
\<close>

lemma hash_password_admin123:
  "hash_password ''admin123'' =
     ''240be518fabd2724ddb6f04eeb1da5967448d7e831c08c8fa822809f74c720a9''"
  by code_simp

lemma hash_password_wrong:
  "hash_password ''wrong'' =
     ''8810ad581e59f2bc3928b261707a71308f7e139eb04820366dc4d5c18d980225''"
  by code_simp

theorem login_user_fails_witness:
  "login_user example_conn ''perawat'' ''admin123'' = None
   \<and> login_user example_conn ''admin'' ''wrong'' = Some False
   \<and> \<not> truthy (login_user example_conn ''admin'' ''wrong'')"
proof -
  define row where
    "row = \<lparr>u_id = 1, username = ''admin'', password_hash = hash_password ''admin123''\<rparr>"
  have absent: "''perawat'' \<notin> username ` set (users example_conn)"
    by (simp add: example_conn_def)
  have found: "find (\<lambda>r. username r = ''admin'') (users example_conn) = Some row"
    by (simp add: example_conn_def row_def)
  have differ: "password_hash row \<noteq> hash_password ''wrong''"
    by (simp add: row_def hash_password_admin123 hash_password_wrong)
  from login_user_fails [of "''perawat''" example_conn "''admin123''"] absent
  have "login_user example_conn ''perawat'' ''admin123'' = None"
    by blast
  moreover from login_user_fails [of "''admin''" example_conn "''wrong''"] found differ
  have "login_user example_conn ''admin'' ''wrong'' = Some False
      \<and> \<not> truthy (login_user example_conn ''admin'' ''wrong'')"
    by blast
  ultimately show ?thesis
    by blast
qed

lemma init_db_has_admin:
  "find (\<lambda>r. username r = ''admin'') (users c) \<noteq> None \<Longrightarrow> init_db c = Inr c"
  by (auto simp: init_db_def)

lemma init_db_no_admin:
  assumes "find (\<lambda>r. username r = ''admin'') (users c) = None"
  shows "init_db c = Inr (c\<lparr>users := users c @ [\<lparr>u_id = users_seq c + 1, username = ''admin'',
                                          password_hash = hash_password ''admin123''\<rparr>],
                  users_seq := users_seq c + 1\<rparr>)"
  using assms by (simp add: init_db_def insert_user_def find_username_None_iff)

lemma init_db_times_fixed:
  "init_db c = Inr c \<Longrightarrow> init_db_times n c = Inr c"
  by (induction n) simp_all

lemma count_admin_distinct:
  "distinct (map username us) \<Longrightarrow> u \<in> username ` set us \<Longrightarrow>
   length (filter (\<lambda>r. username r = u) us) = 1"
proof (induction us)
  case Nil
  then show ?case by simp
next
  case (Cons a us)
  show ?case
  proof (cases "username a = u")
    case True
    with Cons.prems have "filter (\<lambda>r. username r = u) us = []"
      by (auto simp: filter_empty_conv image_iff)
    with True show ?thesis by simp
  next
    case False
    with Cons show ?thesis by auto
  qed
qed

text \<open>
  C9. Initialisation is idempotent with respect to the seed account. On a store whose
  usernames are unique (the \<open>UNIQUE\<close> column), \<open>init_db\<close> never fails, any number of runs
  gives the state one run gives, that state holds exactly one row of \<open>admin\<close> and a
  further run leaves it as it is; where \<open>admin\<close> is already stored, nothing is written, so
  the stored hash stays.
\<close>

theorem init_db_seed_idempotent:
  assumes "distinct (map username (users c))" and "0 < n"
  shows "\<exists>c1. init_db c = Inr c1 \<and> init_db_times n c = Inr c1 \<and> init_db c1 = Inr c1
           \<and> length (filter (\<lambda>r. username r = ''admin'') (users c1)) = 1
           \<and> (''admin'' \<in> username ` set (users c) \<longrightarrow> c1 = c)"
proof (cases "find (\<lambda>r. username r = ''admin'') (users c) = None")
  case False
  then have i: "init_db c = Inr c"
    by (rule init_db_has_admin)
  from False have "''admin'' \<in> username ` set (users c)"
    by (simp add: find_username_None_iff)
  with assms(1) have "length (filter (\<lambda>r. username r = ''admin'') (users c)) = 1"
    by (rule count_admin_distinct)
  with i init_db_times_fixed [OF i] show ?thesis
    by simp
next
  case True
  define c1 where "c1 = c\<lparr>users := users c @ [\<lparr>u_id = users_seq c + 1, username = ''admin'',
                                          password_hash = hash_password ''admin123''\<rparr>],
                  users_seq := users_seq c + 1\<rparr>"
  from True have i: "init_db c = Inr c1"
    unfolding c1_def by (rule init_db_no_admin)
  have "find (\<lambda>r. username r = ''admin'') (users c1) \<noteq> None"
    by (simp add: c1_def find_username_None_iff)
  then have f: "init_db c1 = Inr c1"
    by (rule init_db_has_admin)
  from assms(2) obtain k where "n = Suc k"
    by (cases n) simp_all
  with i init_db_times_fixed [OF f] have t: "init_db_times n c = Inr c1"
    by simp
  from True have "filter (\<lambda>r. username r = ''admin'') (users c) = []"
    by (auto simp: find_None_iff filter_empty_conv)
  then have "length (filter (\<lambda>r. username r = ''admin'') (users c1)) = 1"
    by (simp add: c1_def)
  moreover from True have "''admin'' \<notin> username ` set (users c)"
    by (simp add: find_username_None_iff)
  ultimately show ?thesis
    using i f t by simp
qed

theorem init_db_seed_idempotent_witness:
  "init_db_times 3 (get_db_connection new_file) = init_db (get_db_connection new_file)
   \<and> (\<exists>c1. init_db_times 3 (get_db_connection new_file) = Inr c1
          \<and> length (filter (\<lambda>r. username r = ''admin'') (users c1)) = 1)"
proof -
  have d: "distinct (map username (users (get_db_connection new_file)))"
    by (simp add: get_db_connection_def new_file_def)
  have n: "0 < (3::nat)"
    by simp
  from init_db_seed_idempotent [OF d n] show ?thesis
    by auto
qed

section \<open>Properties of the patient registry\<close>

text \<open>
  C5. \<open>update_patient_status\<close> with the same status and handler is idempotent for every
  patient id: the store after a second call, and after any number of calls, is the store
  after the first. The function has no error result.
\<close>

theorem update_patient_status_idempotent:
  "update_patient_status (update_patient_status c pid s h) pid s h = update_patient_status c pid s h
   \<and> ((\<lambda>c. update_patient_status c pid s h) ^^ Suc n) c = update_patient_status c pid s h"
proof -
  have once: "update_patient_status (update_patient_status c' pid s h) pid s h
      = update_patient_status c' pid s h" for c'
    by (simp add: update_patient_status_def comp_def)
  have "((\<lambda>c. update_patient_status c pid s h) ^^ Suc n) c = update_patient_status c pid s h"
  proof (induction n)
    case 0
    show ?case by simp
  next
    case (Suc n)
    then show ?case using once by simp
  qed
  with once show ?thesis by simp
qed

text \<open>
  C10. \<open>update_patient_status\<close> with a patient id that no row of the registry has returns
  normally and leaves the whole store, every patient record included, as it was.
\<close>

theorem update_patient_status_unknown_id:
  assumes "pid \<notin> p_id ` set (patients c)"
  shows "update_patient_status c pid s h = c"
proof -
  have "map (\<lambda>p. if p_id p = pid then p\<lparr>status := s, handler_user := h\<rparr> else p)
               (patients c) = patients c"
  proof (rule map_idI)
    fix p
    assume "p \<in> set (patients c)"
    with assms have "p_id p \<noteq> pid"
      by auto
    then show "(if p_id p = pid then p\<lparr>status := s, handler_user := h\<rparr> else p) = p"
      by simp
  qed
  then show ?thesis
    by (simp add: update_patient_status_def)
qed

theorem update_patient_status_unknown_id_witness:
  "update_patient_status example_conn 2 (Some ''Meninggal Dunia'') (Some ''admin'') = example_conn"
proof -
  have "(2::int) \<notin> p_id ` set (patients example_conn)"
    by (simp add: example_conn_def)
  then show ?thesis
    by (rule update_patient_status_unknown_id)
qed

text \<open>
  C2. Registering the same name and date of birth twice, the pair not stored before:
  the first \<open>add_patient\<close> inserts one row and returns \<open>True\<close>; the second, whatever its
  other fields, returns \<open>False\<close> and leaves the store exactly as the first left it; the
  registry then holds one record with the pair.
\<close>

theorem add_patient_twice:
  assumes "\<forall>p \<in> set (patients c). \<not> (name p = nm \<and> dob p = strftime birth)"
  shows "\<exists>c1. add_patient c nm birth g d nt s h = Inr (True, c1)
           \<and> add_patient c1 nm birth g' d' nt' s' h' = Inr (False, c1)
           \<and> length (filter (\<lambda>p. name p = nm \<and> dob p = strftime birth) (patients c1)) = 1
           \<and> length (patients c1) = Suc (length (patients c))"
proof -
  define c1 where "c1 = c\<lparr>patients := patients c @
                    [\<lparr>p_id = patients_seq c + 1, name = nm, dob = strftime birth, gender = g,
                      diagnosis = d, p_notes = nt, status = s, handler_user = h\<rparr>],
                  patients_seq := patients_seq c + 1\<rparr>"
  from assms have first: "add_patient c nm birth g d nt s h = Inr (True, c1)"
    by (simp add: add_patient_def insert_patient_def c1_def)
  have second: "add_patient c1 nm birth g' d' nt' s' h' = Inr (False, c1)"
    by (simp add: add_patient_def insert_patient_def c1_def)
  from assms have "filter (\<lambda>p. name p = nm \<and> dob p = strftime birth) (patients c) = []"
    by (auto simp: filter_empty_conv)
  then have "length (filter (\<lambda>p. name p = nm \<and> dob p = strftime birth) (patients c1)) = 1"
    by (simp add: c1_def)
  moreover have "length (patients c1) = Suc (length (patients c))"
    by (simp add: c1_def)
  ultimately show ?thesis
    using first second by blast
qed

theorem add_patient_twice_witness:
  "\<exists>c1. add_patient (get_db_connection new_file) ''Budi'' \<lparr>d_year = 1990, d_month = 5, d_day = 17\<rparr>
            (Some ''Laki-laki'') (Some ''flu'') None (Some ''Hidup'') None = Inr (True, c1)
      \<and> add_patient c1 ''Budi'' \<lparr>d_year = 1990, d_month = 5, d_day = 17\<rparr>
            (Some ''Laki-laki'') None None (Some ''Lahir di Sini'') (Some ''admin'') = Inr (False, c1)
      \<and> length (patients c1) = 1"
proof -
  have h: "\<forall>p \<in> set (patients (get_db_connection new_file)).
      \<not> (name p = ''Budi'' \<and> dob p = strftime \<lparr>d_year = 1990, d_month = 5, d_day = 17\<rparr>)"
    by (simp add: get_db_connection_def new_file_def)
  have e: "length (patients (get_db_connection new_file)) = 0"
    by (simp add: get_db_connection_def new_file_def)
  from add_patient_twice [OF h, where g = "Some ''Laki-laki''" and d = "Some ''flu''"
      and nt = None and s = "Some ''Hidup''" and h = None and g' = "Some ''Laki-laki''"
      and d' = None and nt' = None and s' = "Some ''Lahir di Sini''" and h' = "Some ''admin''"]
  have "\<exists>c1. add_patient (get_db_connection new_file) ''Budi''
            \<lparr>d_year = 1990, d_month = 5, d_day = 17\<rparr>
            (Some ''Laki-laki'') (Some ''flu'') None (Some ''Hidup'') None = Inr (True, c1)
      \<and> add_patient c1 ''Budi'' \<lparr>d_year = 1990, d_month = 5, d_day = 17\<rparr>
            (Some ''Laki-laki'') None None (Some ''Lahir di Sini'') (Some ''admin'') = Inr (False, c1)
      \<and> length (patients c1) = Suc (length (patients (get_db_connection new_file)))"
    by blast
  then show ?thesis
    by (simp add: e)
qed

section \<open>Properties of the visit ledger\<close>

lemma add_visit_foreign_keys_off:
  "\<not> foreign_keys c \<Longrightarrow>
   add_visit c pid vdate r outc prog tgs =
     Inr (visits_seq c + 1,
          c\<lparr>visits := visits c @
               [\<lparr>v_id = visits_seq c + 1, patient_id = pid, visit_date = strftime vdate,
                 reason = r, outcome = outc, progress_status = prog,
                 tags = Some (json_dumps tgs)\<rparr>],
             visits_seq := visits_seq c + 1\<rparr>)"
  by (simp add: add_visit_def insert_visit_def)

lemma add_visit_foreign_keys_on:
  "foreign_keys c \<Longrightarrow> pid \<notin> p_id ` set (patients c) \<Longrightarrow>
   add_visit c pid vdate r outc prog tgs = Inl (IntegrityError FOREIGN_KEY_failed)"
  by (simp add: add_visit_def insert_visit_def)

lemma get_db_connection_foreign_keys: "\<not> foreign_keys (get_db_connection file)"
  by (simp add: get_db_connection_def)

lemma init_db_foreign_keys: "init_db c = Inr c' \<Longrightarrow> foreign_keys c' = foreign_keys c"
  by (auto simp: init_db_def insert_user_def split: if_splits)

text \<open>
  C1. \<open>add_visit\<close> with a patient id that references no patient, on the program's own
  connection: after the first initialisation of a new file there is no patient at all,
  and the call with patient id 999 returns the new visit's id 1 and leaves a ledger
  that is one row longer, the row carrying the unknown id.
\<close>

theorem add_visit_unknown_patient:
  "\<exists>c c'. init_db (get_db_connection new_file) = Inr c
      \<and> patients c = []
      \<and> add_visit c 999 \<lparr>d_year = 2024, d_month = 1, d_day = 15\<rparr>
           (Some ''kontrol'') None (Some ''Membaik'') [''EKG''] = Inr (1, c')
      \<and> length (visits c') = Suc (length (visits c))
      \<and> map patient_id (visits c') = [999]"
  by (simp add: init_db_def insert_user_def get_db_connection_def new_file_def
      add_visit_def insert_visit_def)

subsection \<open>The tag list survives \<open>json.dumps\<close> and \<open>json.loads\<close>\<close>

lemma hex_value_hex_digit: "k < 16 \<Longrightarrow> hex_value (hex_digit k) = Some k"
  by (auto simp: hex_value_def hex_digit_def Let_def)

lemma decode_escape:
  "decode_uXXXX (CHR ''0'') (CHR ''0'') (hex_digit (of_char c div 16)) (hex_digit (of_char c mod 16))
     = Some (of_char c)"
proof -
  have "(of_char c :: nat) < 256"
    by simp
  then have "(of_char c :: nat) div 16 < 16"
    by arith
  then have a: "hex_value (hex_digit (of_char c div 16)) = Some (of_char c div 16)"
    by (rule hex_value_hex_digit)
  have b: "hex_value (hex_digit (of_char c mod 16)) = Some (of_char c mod 16)"
    by (rule hex_value_hex_digit) simp
  have z: "hex_value (CHR ''0'') = Some 0"
    by (simp add: hex_value_def)
  show ?thesis
    by (simp add: decode_uXXXX_def a b z)
qed

lemma scanstring_escape:
  "scanstring (json_escape c @ rest) = cons_result c (scanstring rest)"
  by (simp add: json_escape_def unescape_def DQ_def BS_def decode_escape)

lemma scanstring_encoded:
  "scanstring (concat (map json_escape s) @ DQ # rest) = Some (s, rest)"
proof (induction s)
  case Nil
  show ?case by simp
next
  case (Cons c s)
  have "scanstring (concat (map json_escape (c # s)) @ DQ # rest)
      = scanstring (json_escape c @ (concat (map json_escape s) @ DQ # rest))"
    by simp
  also have "\<dots> = cons_result c (scanstring (concat (map json_escape s) @ DQ # rest))"
    by (rule scanstring_escape)
  also have "\<dots> = Some (c # s, rest)"
    by (simp add: Cons.IH cons_result_def)
  finally show ?case .
qed

lemma skip_ws_not_ws: "\<not> is_ws c \<Longrightarrow> skip_ws (c # s) = c # s"
  by (simp add: skip_ws_def)

lemma skip_ws_space: "skip_ws (CHR '' '' # s) = skip_ws s"
  by (simp add: skip_ws_def is_ws_def)

lemma is_ws_simps:
  "\<not> is_ws DQ" "\<not> is_ws (CHR '']'')" "\<not> is_ws (CHR '','')" "\<not> is_ws (CHR ''['')"
  by (simp_all add: is_ws_def DQ_def)

lemma join_encoded_head:
  "\<exists>body. join '', '' (map encode_basestring_ascii (t # ts)) = DQ # body"
  by (cases ts) (simp_all add: encode_basestring_ascii_def)

lemma skip_ws_encoded:
  "skip_ws (join '', '' (map encode_basestring_ascii (t # ts)) @ r)
     = join '', '' (map encode_basestring_ascii (t # ts)) @ r"
proof -
  obtain body where "join '', '' (map encode_basestring_ascii (t # ts)) = DQ # body"
    using join_encoded_head by blast
  then show ?thesis
    by (simp add: skip_ws_not_ws is_ws_simps)
qed

lemma scan_items_encoded:
  "scan_items (join '', '' (map encode_basestring_ascii (t # ts)) @ CHR '']'' # rest)
     = Some (t # ts, rest)"
proof (induction ts arbitrary: t)
  case Nil
  have "scan_items (DQ # concat (map json_escape t) @ DQ # CHR '']'' # rest) = Some ([t], rest)"
    by (subst scan_items.simps)
      (simp add: scanstring_encoded skip_ws_not_ws is_ws_simps)
  then show ?case
    by (simp add: encode_basestring_ascii_def)
next
  case (Cons u us)
  define tail where "tail = join '', '' (map encode_basestring_ascii (u # us)) @ CHR '']'' # rest"
  have sk: "skip_ws (CHR '' '' # tail) = tail"
    unfolding tail_def by (simp only: skip_ws_space skip_ws_encoded)
  have tl: "scan_items tail = Some (u # us, rest)"
    unfolding tail_def by (rule Cons.IH)
  have "scan_items (encode_basestring_ascii t @ '', '' @ tail) = Some (t # u # us, rest)"
    by (subst scan_items.simps)
      (simp add: encode_basestring_ascii_def [of t] scanstring_encoded skip_ws_not_ws
        is_ws_simps sk tl)
  then show ?case
    by (simp add: tail_def)
qed

lemma json_loads_json_dumps: "json_loads (json_dumps tgs) = Some tgs"
proof (cases tgs)
  case Nil
  then show ?thesis
    by (simp add: json_loads_def json_dumps_def skip_ws_def is_ws_def)
next
  case (Cons t ts)
  define body where "body = join '', '' (map encode_basestring_ascii (t # ts)) @ '']''"
  obtain b where b: "body = DQ # b"
    using join_encoded_head [of t ts] by (auto simp: body_def)
  have sk: "skip_ws (DQ # b) = DQ # b"
    by (simp add: skip_ws_not_ws is_ws_simps)
  have ne: "DQ \<noteq> CHR '']''"
    by (simp add: DQ_def)
  have items: "scan_items body = Some (t # ts, [])"
    unfolding body_def using scan_items_encoded [of t ts "[]"] by simp
  have "skip_ws (CHR ''['' # body) = CHR ''['' # body"
    by (simp add: skip_ws_not_ws is_ws_simps)
  moreover have "(case skip_ws body of [] \<Rightarrow> None
        | d # ds \<Rightarrow> if d = CHR '']'' then Some ([], ds) else scan_items (d # ds))
      = Some (t # ts, [])"
    using items ne by (simp add: sk b)
  ultimately have "json_loads (CHR ''['' # body) = Some (t # ts)"
    by (simp add: json_loads_def skip_ws_def)
  with Cons show ?thesis
    by (simp add: json_dumps_def body_def)
qed

text \<open>
  C8. For every list of tags given to \<open>add_visit\<close>, duplicates included, the text stored
  with the new visit decodes to the list given, in its order and with its duplicates;
  the loop of the statistics scan, on that text, extends \<open>all_tags\<close> by exactly that list.
\<close>

theorem tags_roundtrip:
  assumes "add_visit c pid vdate r outc prog tgs = Inr (vid, c')"
  shows "\<exists>text. visits c' = visits c @ [last (visits c')]
           \<and> v_id (last (visits c')) = vid
           \<and> tags (last (visits c')) = Some text
           \<and> json_loads text = Some tgs
           \<and> extend_all all_tags [text] = Inr (all_tags @ tgs)"
proof -
  from assms have "visits c' = visits c @
               [\<lparr>v_id = vid, patient_id = pid, visit_date = strftime vdate,
                 reason = r, outcome = outc, progress_status = prog,
                 tags = Some (json_dumps tgs)\<rparr>]"
    by (auto simp: add_visit_def insert_visit_def split: if_splits)
  then show ?thesis
    by (simp add: json_loads_json_dumps)
qed

theorem tags_roundtrip_witness:
  "\<exists>vid c' text.
      add_visit example_conn 1 \<lparr>d_year = 2024, d_month = 6, d_day = 3\<rparr> None None None
        [''EKG'', ''Injeksi'', ''EKG''] = Inr (vid, c')
      \<and> tags (last (visits c')) = Some text
      \<and> json_loads text = Some [''EKG'', ''Injeksi'', ''EKG'']"
proof -
  have "\<not> foreign_keys example_conn"
    by (simp add: example_conn_def)
  from add_visit_foreign_keys_off [OF this]
  obtain vid c' where
    a: "add_visit example_conn 1 \<lparr>d_year = 2024, d_month = 6, d_day = 3\<rparr> None None None
          [''EKG'', ''Injeksi'', ''EKG''] = Inr (vid, c')"
    by blast
  from tags_roundtrip [OF a] a show ?thesis
    by blast
qed

section \<open>Properties of the reports\<close>

lemma fmt_2024_02: "str_int 2024 = ''2024''" "format_02d 2 = ''02''" "format_02d 4 = ''04''"
  by code_simp+

lemma report_member:
  assumes "p \<in> set (patients c)" "v \<in> set (visits c)" "patient_id v = p_id p"
    "text_le (str_int y @ ''-'' @ format_02d m @ ''-01'') (visit_date v)"
    "text_le (visit_date v) (str_int y @ ''-'' @ format_02d m @ ''-31'')"
  shows "report_row_of p \<in> set (get_monthly_report c y m)"
  using assms by (force simp: get_monthly_report_def between_def Let_def)

lemma report_origin:
  assumes "x \<in> set (get_monthly_report c y m)"
  shows "\<exists>p \<in> set (patients c). \<exists>v \<in> set (visits c). x = report_row_of p
           \<and> patient_id v = p_id p
           \<and> text_le (str_int y @ ''-'' @ format_02d m @ ''-01'') (visit_date v)
           \<and> text_le (visit_date v) (str_int y @ ''-'' @ format_02d m @ ''-31'')"
  using assms by (auto simp: get_monthly_report_def between_def Let_def split: if_splits)

lemma report_set:
  "set (get_monthly_report c y m) =
     {report_row_of p | p. p \<in> set (patients c) \<and>
        (\<exists>v \<in> set (visits c). patient_id v = p_id p
           \<and> text_le (str_int y @ ''-'' @ format_02d m @ ''-01'') (visit_date v)
           \<and> text_le (visit_date v) (str_int y @ ''-'' @ format_02d m @ ''-31''))}"
proof (intro set_eqI iffI)
  fix x
  assume "x \<in> set (get_monthly_report c y m)"
  from report_origin [OF this] show "x \<in> {report_row_of p | p. p \<in> set (patients c) \<and>
        (\<exists>v \<in> set (visits c). patient_id v = p_id p
           \<and> text_le (str_int y @ ''-'' @ format_02d m @ ''-01'') (visit_date v)
           \<and> text_le (visit_date v) (str_int y @ ''-'' @ format_02d m @ ''-31''))}"
    by blast
next
  fix x
  assume "x \<in> {report_row_of p | p. p \<in> set (patients c) \<and>
        (\<exists>v \<in> set (visits c). patient_id v = p_id p
           \<and> text_le (str_int y @ ''-'' @ format_02d m @ ''-01'') (visit_date v)
           \<and> text_le (visit_date v) (str_int y @ ''-'' @ format_02d m @ ''-31''))}"
  then show "x \<in> set (get_monthly_report c y m)"
    using report_member by blast
qed

lemma report_distinct: "distinct (get_monthly_report c y m)"
  by (simp add: get_monthly_report_def Let_def)

text \<open>
  C3. \<open>get_monthly_report(conn, year, month)\<close> returns, each once, the patients that have
  at least one visit whose date lies between the texts \<open>year-month-01\<close> and
  \<open>year-month-31\<close> (the month on two digits) in the order of texts. A visit dated
  \<open>2024-02-29\<close> puts its patient into the report of \<open>(2024, 2)\<close>, and a visit dated
  \<open>2024-04-30\<close> puts its patient into the report of \<open>(2024, 4)\<close>.
\<close>

theorem monthly_report:
  "set (get_monthly_report c y m) =
     {report_row_of p | p. p \<in> set (patients c) \<and>
        (\<exists>v \<in> set (visits c). patient_id v = p_id p
           \<and> text_le (str_int y @ ''-'' @ format_02d m @ ''-01'') (visit_date v)
           \<and> text_le (visit_date v) (str_int y @ ''-'' @ format_02d m @ ''-31''))}
   \<and> distinct (get_monthly_report c y m)
   \<and> (\<forall>p v. p \<in> set (patients c) \<and> v \<in> set (visits c) \<and> patient_id v = p_id p
          \<and> visit_date v = ''2024-02-29''
        \<longrightarrow> report_row_of p \<in> set (get_monthly_report c 2024 2))
   \<and> (\<forall>p v. p \<in> set (patients c) \<and> v \<in> set (visits c) \<and> patient_id v = p_id p
          \<and> visit_date v = ''2024-04-30''
        \<longrightarrow> report_row_of p \<in> set (get_monthly_report c 2024 4))"
proof -
  have feb: "report_row_of p \<in> set (get_monthly_report c 2024 2)"
    if "p \<in> set (patients c)" "v \<in> set (visits c)" "patient_id v = p_id p"
      "visit_date v = ''2024-02-29''" for p v
  proof -
    have "text_le (str_int 2024 @ ''-'' @ format_02d 2 @ ''-01'') (visit_date v)
        \<and> text_le (visit_date v) (str_int 2024 @ ''-'' @ format_02d 2 @ ''-31'')"
      by (simp add: that fmt_2024_02)
    with that show ?thesis
      unfolding report_set by blast
  qed
  have apr: "report_row_of p \<in> set (get_monthly_report c 2024 4)"
    if "p \<in> set (patients c)" "v \<in> set (visits c)" "patient_id v = p_id p"
      "visit_date v = ''2024-04-30''" for p v
  proof -
    have "text_le (str_int 2024 @ ''-'' @ format_02d 4 @ ''-01'') (visit_date v)
        \<and> text_le (visit_date v) (str_int 2024 @ ''-'' @ format_02d 4 @ ''-31'')"
      by (simp add: that fmt_2024_02)
    with that show ?thesis
      unfolding report_set by blast
  qed
  from feb apr report_set [of c y m] report_distinct [of c y m] show ?thesis
    by blast
qed

theorem monthly_report_witness:
  "(1, ''Budi'', ''1990-05-17'', Some ''Laki-laki'', Some ''flu'')
      \<in> set (get_monthly_report example_conn 2024 2)
   \<and> (1, ''Budi'', ''1990-05-17'', Some ''Laki-laki'', Some ''flu'')
      \<in> set (get_monthly_report example_conn 2024 4)"
proof -
  define p where "p = \<lparr>p_id = 1, name = ''Budi'', dob = ''1990-05-17'',
      gender = Some ''Laki-laki'', diagnosis = Some ''flu'', p_notes = None,
      status = Some ''Hidup'', handler_user = None\<rparr>"
  define v1 where "v1 = \<lparr>v_id = 1, patient_id = 1, visit_date = ''2024-02-29'', reason = None,
      outcome = None, progress_status = Some ''Membaik'',
      tags = Some (json_dumps [''A'', ''B''])\<rparr>"
  define v2 where "v2 = \<lparr>v_id = 2, patient_id = 1, visit_date = ''2024-04-30'', reason = None,
      outcome = None, progress_status = Some ''Membaik'',
      tags = Some (json_dumps [''A''])\<rparr>"
  have feb: "p \<in> set (patients example_conn) \<and> v1 \<in> set (visits example_conn)
      \<and> patient_id v1 = p_id p \<and> visit_date v1 = ''2024-02-29''"
    by (simp add: example_conn_def p_def v1_def)
  have apr: "p \<in> set (patients example_conn) \<and> v2 \<in> set (visits example_conn)
      \<and> patient_id v2 = p_id p \<and> visit_date v2 = ''2024-04-30''"
    by (simp add: example_conn_def p_def v2_def)
  have row: "report_row_of p = (1, ''Budi'', ''1990-05-17'', Some ''Laki-laki'', Some ''flu'')"
    by (simp add: report_row_of_def p_def)
  from monthly_report [of example_conn 2024 2] feb apr show ?thesis
    unfolding row [symmetric] by blast
qed

subsection \<open>Tag statistics\<close>

lemma json_dumps_empty_iff: "json_dumps ts = ''[]'' \<longleftrightarrow> ts = []"
proof (cases ts)
  case Nil
  then show ?thesis by (simp add: json_dumps_def)
next
  case (Cons t us)
  obtain body where "join '', '' (map encode_basestring_ascii (t # us)) = DQ # body"
    using join_encoded_head by blast
  with Cons show ?thesis
    by (simp add: json_dumps_def DQ_def)
qed

lemma select_tags_map_tags:
  "select_tags c =
     concat (map (\<lambda>x. case x of None \<Rightarrow> [] | Some t \<Rightarrow> if t \<noteq> ''[]'' then [t] else [])
               (map tags (visits c)))"
  by (simp add: select_tags_def comp_def)

lemma select_tags_dumped:
  assumes "map tags (visits c) = map (\<lambda>ts. Some (json_dumps ts)) tss"
  shows "select_tags c = map json_dumps (filter (\<lambda>ts. ts \<noteq> []) tss)"
proof -
  have "concat (map (\<lambda>x. case x of None \<Rightarrow> [] | Some t \<Rightarrow> if t \<noteq> ''[]'' then [t] else [])
               (map (\<lambda>ts. Some (json_dumps ts)) tss))
      = map json_dumps (filter (\<lambda>ts. ts \<noteq> []) tss)"
    by (induction tss) (simp_all add: json_dumps_empty_iff)
  with assms show ?thesis
    by (simp add: select_tags_map_tags)
qed

lemma extend_all_dumped:
  "extend_all acc (map json_dumps tss) = Inr (acc @ concat tss)"
  by (induction tss arbitrary: acc) (simp_all add: json_loads_json_dumps)

lemma concat_filter_nonempty: "concat (filter (\<lambda>ts. ts \<noteq> []) tss) = concat tss"
  by (induction tss) simp_all

lemma counter_add_keys: "fst ` set (counter_add t kvs) = insert t (fst ` set kvs)"
  by (induction t kvs rule: counter_add.induct) auto

lemma counter_add_distinct:
  "distinct (map fst kvs) \<Longrightarrow> distinct (map fst (counter_add t kvs))"
  by (induction t kvs rule: counter_add.induct) (auto simp: counter_add_keys)

lemma counter_add_map_of:
  "map_of (counter_add t kvs) =
     (map_of kvs)(t \<mapsto> (case map_of kvs t of None \<Rightarrow> 1 | Some n \<Rightarrow> n + 1))"
  by (induction t kvs rule: counter_add.induct) (auto simp: fun_eq_iff)

lemma fold_counter_add_distinct:
  "distinct (map fst kvs) \<Longrightarrow> distinct (map fst (fold counter_add xs kvs))"
  by (induction xs arbitrary: kvs) (simp_all add: counter_add_distinct)

lemma fold_counter_add_map_of:
  "map_of (fold counter_add xs kvs) k =
     (if k \<in> set xs
      then Some (count_list xs k + (case map_of kvs k of None \<Rightarrow> 0 | Some n \<Rightarrow> n))
      else map_of kvs k)"
proof (induction xs arbitrary: kvs)
  case Nil
  show ?case by simp
next
  case (Cons x xs)
  show ?case
    by (simp add: Cons.IH counter_add_map_of split: option.splits)
qed

lemma Counter_distinct: "distinct (map fst (Counter xs))"
  by (simp add: Counter_def fold_counter_add_distinct)

lemma Counter_member:
  "(t, n) \<in> set (Counter xs) \<longleftrightarrow> t \<in> set xs \<and> n = count_list xs t"
proof -
  have "(t, n) \<in> set (Counter xs) \<longleftrightarrow> map_of (Counter xs) t = Some n"
    using Counter_distinct by simp
  also have "\<dots> \<longleftrightarrow> t \<in> set xs \<and> n = count_list xs t"
    by (auto simp: Counter_def fold_counter_add_map_of)
  finally show ?thesis .
qed

lemma sort_values_desc_set: "set (sort_values_desc rows) = set rows"
  by (simp add: sort_values_desc_def)

lemma sort_values_desc_distinct:
  "distinct (map fst (sort_values_desc rows)) = distinct (map fst rows)"
  by (simp add: sort_values_desc_def distinct_map)

lemma sort_values_desc_sorted:
  "sorted_wrt (\<lambda>a b. snd b \<le> snd a) (sort_values_desc rows)"
proof -
  have "sorted (map (\<lambda>row. - int (snd row)) (sort_values_desc rows))"
    unfolding sort_values_desc_def by (rule sorted_sort_key)
  then show ?thesis
    by (simp add: sorted_map)
qed

lemma stats_sorted:
  "get_action_tags_stats c = Inr rows \<Longrightarrow> sorted_wrt (\<lambda>a b. snd b \<le> snd a) rows"
  by (auto simp: get_action_tags_stats_def Let_def sort_values_desc_sorted
      split: if_splits sum.splits)

lemma stats_dumped:
  assumes "map tags (visits c) = map (\<lambda>ts. Some (json_dumps ts)) tss"
  shows "get_action_tags_stats c = Inr (sort_values_desc (Counter (concat tss)))"
proof -
  have s: "select_tags c = map json_dumps (filter (\<lambda>ts. ts \<noteq> []) tss)"
    using assms by (rule select_tags_dumped)
  show ?thesis
  proof (cases "select_tags c = []")
    case True
    with s have "filter (\<lambda>ts. ts \<noteq> []) tss = []"
      by simp
    then have cc: "concat tss = []"
      using concat_filter_nonempty [of tss] by simp
    have "sort_values_desc (Counter (concat tss)) = []"
      unfolding cc by (simp add: Counter_def sort_values_desc_def)
    with True show ?thesis
      by (simp add: get_action_tags_stats_def)
  next
    case False
    then show ?thesis
      by (simp add: get_action_tags_stats_def s extend_all_dumped concat_filter_nonempty)
  qed
qed

lemma select_tags_drop_empty:
  "select_tags (c\<lparr>visits := filter (\<lambda>v. tags v \<noteq> Some (json_dumps [])) (visits c)\<rparr>)
     = select_tags c"
proof -
  have "concat (map (\<lambda>v. case tags v of None \<Rightarrow> [] | Some t \<Rightarrow> if t \<noteq> ''[]'' then [t] else [])
                 (filter (\<lambda>v. tags v \<noteq> Some ''[]'') vs))
      = concat (map (\<lambda>v. case tags v of None \<Rightarrow> [] | Some t \<Rightarrow> if t \<noteq> ''[]'' then [t] else [])
                 vs)" for vs :: "visit_row list"
    by (induction vs) (auto split: option.splits)
  then show ?thesis
    by (simp add: select_tags_def json_dumps_def)
qed

text \<open>
  C4. Over a ledger whose visits carry the tag lists \<open>["A", "B"]\<close>, \<open>["A"]\<close> and \<open>[]\<close>,
  \<open>get_action_tags_stats\<close> returns the rows \<open>A: 2\<close>, \<open>B: 1\<close>. Visits with an empty tag
  list contribute nothing: dropping them from the ledger changes no result. Every result
  is ordered by falling count. And over any ledger written by \<open>add_visit\<close>, there is one
  row per tag that occurs, with the number of its occurrences over all visits.
\<close>

theorem tag_frequency:
  "(map tags (visits c) =
      [Some (json_dumps [''A'', ''B'']), Some (json_dumps [''A'']), Some (json_dumps [])]
      \<longrightarrow> get_action_tags_stats c = Inr [(''A'', 2), (''B'', 1)])
   \<and> get_action_tags_stats (c\<lparr>visits := filter (\<lambda>v. tags v \<noteq> Some (json_dumps [])) (visits c)\<rparr>)
       = get_action_tags_stats c
   \<and> (\<forall>rows. get_action_tags_stats c = Inr rows \<longrightarrow> sorted_wrt (\<lambda>a b. snd b \<le> snd a) rows)
   \<and> (map tags (visits c) = map (\<lambda>ts. Some (json_dumps ts)) tss \<longrightarrow>
        (\<exists>rows. get_action_tags_stats c = Inr rows \<and> distinct (map fst rows)
           \<and> (\<forall>t n. (t, n) \<in> set rows \<longleftrightarrow> t \<in> set (concat tss) \<and> n = count_list (concat tss) t)))"
proof -
  have example: "get_action_tags_stats c = Inr [(''A'', 2), (''B'', 1)]"
    if "map tags (visits c) =
      [Some (json_dumps [''A'', ''B'']), Some (json_dumps [''A'']), Some (json_dumps [])]"
  proof -
    from that have "map tags (visits c)
        = map (\<lambda>ts. Some (json_dumps ts)) [[''A'', ''B''], [''A''], []]"
      by simp
    then have "get_action_tags_stats c
        = Inr (sort_values_desc (Counter (concat [[''A'', ''B''], [''A''], []])))"
      by (rule stats_dumped)
    then show ?thesis
      by (simp add: Counter_def sort_values_desc_def)
  qed
  have empties: "get_action_tags_stats
        (c\<lparr>visits := filter (\<lambda>v. tags v \<noteq> Some (json_dumps [])) (visits c)\<rparr>)
      = get_action_tags_stats c"
    by (simp add: get_action_tags_stats_def select_tags_drop_empty)
  have counts: "\<exists>rows. get_action_tags_stats c = Inr rows \<and> distinct (map fst rows)
           \<and> (\<forall>t n. (t, n) \<in> set rows \<longleftrightarrow> t \<in> set (concat tss) \<and> n = count_list (concat tss) t)"
    if "map tags (visits c) = map (\<lambda>ts. Some (json_dumps ts)) tss"
    using stats_dumped [OF that]
    by (simp add: sort_values_desc_distinct sort_values_desc_set Counter_distinct Counter_member)
  from example empties counts stats_sorted show ?thesis
    by blast
qed

theorem tag_frequency_witness:
  "get_action_tags_stats example_conn = Inr [(''A'', 2), (''B'', 1)]
   \<and> sorted_wrt (\<lambda>a b. snd b \<le> snd a) [(''A'', 2 :: nat), (''B'', 1)]
   \<and> (\<forall>t n. (t, n) \<in> set [(''A'', 2 :: nat), (''B'', 1)] \<longleftrightarrow>
          t \<in> set [''A'', ''B'', ''A''] \<and> n = count_list [''A'', ''B'', ''A''] t)"
proof -
  have h: "map tags (visits example_conn) =
      [Some (json_dumps [''A'', ''B'']), Some (json_dumps [''A'']), Some (json_dumps [])]"
    by (simp add: example_conn_def)
  have g: "map tags (visits example_conn)
      = map (\<lambda>ts. Some (json_dumps ts)) [[''A'', ''B''], [''A''], []]"
    by (simp add: example_conn_def)
  note t = tag_frequency [of example_conn "[[''A'', ''B''], [''A''], []]"]
  from t h have r: "get_action_tags_stats example_conn = Inr [(''A'', 2), (''B'', 1)]"
    by blast
  from t r have s: "sorted_wrt (\<lambda>a b. snd b \<le> snd a) [(''A'', 2 :: nat), (''B'', 1)]"
    by blast
  from t g r have "\<forall>t n. (t, n) \<in> set [(''A'', 2 :: nat), (''B'', 1)] \<longleftrightarrow>
      t \<in> set (concat [[''A'', ''B''], [''A''], []])
        \<and> n = count_list (concat [[''A'', ''B''], [''A''], []]) t"
    by (metis sum.inject(2))
  with r s show ?thesis
    by simp
qed

end
